theory Spec2Isabelle
  imports Complex_Main "HOL-Library.AList"
begin

section \<open>Portfolio ledger and performance metrics\<close>

text \<open>
  A shallow embedding of \<^verbatim>\<open>backtest/portifolio.py\<close> and of the benchmark aligner and
  the drawdown computation of \<^verbatim>\<open>backtest/metrics.py\<close>.

  Python floats are modelled as \<^typ>\<open>real\<close> (exact arithmetic, no rounding), Python
  integers as \<^typ>\<open>int\<close>; a value of a pandas series is a \<^typ>\<open>real option\<close>, with
  \<open>None\<close> for NaN. A method of \<^verbatim>\<open>Portfolio\<close> is a function from the
  object's state to a result and the state afterwards; a raised exception is the result
  \<open>Inl e\<close>, and the state returned with it is the one the exception leaves behind.
  The \<^verbatim>\<open>positions\<close> dictionary is an association list in insertion order, as a Python
  dictionary iterates.
\<close>

subsection \<open>Data model\<close>

datatype error = ZeroDivisionError | ValueError

record Position =
  ticker :: string
  shares :: int
  avg_price :: real
  current_price :: real
  entry_date :: string
  stop_loss :: "real option"
  take_profit :: "real option"

record Trade =
  trade_date :: string
  trade_ticker :: string
  action :: string
  trade_shares :: int
  price :: real
  commission :: real
  total_cost :: real
  reason :: string

text \<open>The \<^verbatim>\<open>history\<close> dictionary of column lists.\<close>

record History =
  h_date :: "string list"
  h_total_value :: "real list"
  h_cash :: "real list"
  h_positions_value :: "real list"
  h_num_positions :: "nat list"
  h_returns :: "real list"

record Portfolio =
  initial_capital :: real
  cash :: real
  commission_pct :: real
  min_position_size :: real
  max_position_size :: real
  positions :: "(string \<times> Position) list"
  trades :: "Trade list"
  history :: History

text \<open>
  The messages of \<^verbatim>\<open>can_buy\<close> are f-strings; the model keeps the numbers they format.
\<close>

datatype message =
    BelowMinimum real real
  | IncrementTooSmall real
  | InsufficientCash real real
  | OK

text \<open>\<^verbatim>\<open>int(x)\<close> on a float truncates toward zero.\<close>

definition py_int :: "real \<Rightarrow> int" where
  "py_int x = (if 0 \<le> x then \<lfloor>x\<rfloor> else \<lceil>x\<rceil>)"

definition new_portfolio :: "real \<Rightarrow> real \<Rightarrow> real \<Rightarrow> real \<Rightarrow> Portfolio" where
  "new_portfolio initial_capital' commission_pct' min_position_size' max_position_size' =
     \<lparr>initial_capital = initial_capital', cash = initial_capital',
      commission_pct = commission_pct', min_position_size = min_position_size',
      max_position_size = max_position_size', positions = [], trades = [],
      history = \<lparr>h_date = [], h_total_value = [], h_cash = [], h_positions_value = [],
                 h_num_positions = [], h_returns = []\<rparr>\<rparr>"

subsection \<open>Position and portfolio properties\<close>

definition market_value :: "Position \<Rightarrow> real" where
  "market_value pos = of_int (shares pos) * current_price pos"

definition cost_basis :: "Position \<Rightarrow> real" where
  "cost_basis pos = of_int (shares pos) * avg_price pos"

definition should_stop_loss :: "Position \<Rightarrow> bool" where
  "should_stop_loss pos =
     (case stop_loss pos of None \<Rightarrow> False | Some s \<Rightarrow> current_price pos \<le> s)"

definition should_take_profit :: "Position \<Rightarrow> bool" where
  "should_take_profit pos =
     (case take_profit pos of None \<Rightarrow> False | Some t \<Rightarrow> current_price pos \<ge> t)"

definition positions_value :: "Portfolio \<Rightarrow> real" where
  "positions_value self = sum_list (map (\<lambda>(k, pos). market_value pos) (positions self))"

definition total_value :: "Portfolio \<Rightarrow> real" where
  "total_value self = cash self + positions_value self"

definition num_positions :: "Portfolio \<Rightarrow> nat" where
  "num_positions self = length (positions self)"


subsection \<open>can_buy\<close>

text \<open>
  Lines 171-181 of \<^verbatim>\<open>can_buy\<close>: the cash check on the value still to be bought.
  \<^verbatim>\<open>self.cash / (1 + self.commission_pct)\<close> raises when the commission is \<open>-1\<close>.
\<close>

definition can_buy_cash ::
  "Portfolio \<Rightarrow> real \<Rightarrow> (error + bool \<times> int \<times> message) \<times> Portfolio" where
  "can_buy_cash self target_value =
     (let required_cash = target_value * (1 + commission_pct self) in
      if required_cash > cash self then
        (if 1 + commission_pct self = 0 then (Inl ZeroDivisionError, self)
         else
           let target_value' = cash self / (1 + commission_pct self) in
           if target_value' < total_value self * min_position_size self
           then (Inr (False, 0, InsufficientCash (cash self) required_cash), self)
           else (Inr (True, py_int target_value', OK), self))
      else (Inr (True, py_int target_value, OK), self))"

text \<open>
  \<^verbatim>\<open>can_buy\<close>. The message of the increment branch divides by \<^verbatim>\<open>self.total_value\<close>,
  which raises when the total value is zero.
\<close>

definition can_buy ::
  "Portfolio \<Rightarrow> string \<Rightarrow> real \<Rightarrow> (error + bool \<times> int \<times> message) \<times> Portfolio" where
  "can_buy self tk target_pct =
     (if target_pct < min_position_size self * 100
      then (Inr (False, 0, BelowMinimum target_pct (min_position_size self * 100)), self)
      else
        let target_pct' = (if target_pct > max_position_size self * 100
                           then max_position_size self * 100 else target_pct);
            target_value = (target_pct' / 100) * total_value self
        in case map_of (positions self) tk of
             Some pos \<Rightarrow>
               let current_value = market_value pos;
                   additional_value = target_value - current_value
               in if additional_value < total_value self * min_position_size self
                  then (if total_value self = 0 then (Inl ZeroDivisionError, self)
                        else (Inr (False, 0,
                                IncrementTooSmall (additional_value / total_value self * 100)),
                              self))
                  else can_buy_cash self additional_value
           | None \<Rightarrow> can_buy_cash self target_value)"

text \<open>\<open>n\<close> successive calls of \<^verbatim>\<open>can_buy\<close> on one object: the results, and the state at the end.\<close>

fun can_buy_times ::
  "nat \<Rightarrow> Portfolio \<Rightarrow> string \<Rightarrow> real \<Rightarrow> (error + bool \<times> int \<times> message) list \<times> Portfolio" where
  "can_buy_times 0 self tk target_pct = ([], self)"
| "can_buy_times (Suc n) self tk target_pct =
     (case can_buy self tk target_pct of
        (r, self') \<Rightarrow>
          (case can_buy_times n self' tk target_pct of (rs, self'') \<Rightarrow> (r # rs, self'')))"

subsection \<open>buy\<close>

text \<open>
  Lines 231-276 of \<^verbatim>\<open>buy\<close>, for the share count finally chosen: the cost is computed
  from it, deducted from the cash, the position is merged or created and the trade is
  appended. In the merge, \<^verbatim>\<open>pos.shares += shares\<close> comes before the division by
  \<^verbatim>\<open>pos.shares\<close>: when the sum is zero the division raises after the cash and the share
  count have been changed.
\<close>

definition buy_execute ::
  "Portfolio \<Rightarrow> string \<Rightarrow> real \<Rightarrow> string \<Rightarrow> real option \<Rightarrow> real option \<Rightarrow> string \<Rightarrow> int
     \<Rightarrow> (error + Trade option) \<times> Portfolio" where
  "buy_execute self tk price' date sl tp reason' shares' =
     (let trade_value = of_int shares' * price';
          commission' = trade_value * commission_pct self;
          total_cost' = trade_value + commission';
          self1 = self\<lparr>cash := cash self - total_cost'\<rparr>;
          trade = \<lparr>trade_date = date, trade_ticker = tk, action = ''BUY'',
                   trade_shares = shares', price = price', commission = commission',
                   total_cost = total_cost', reason = reason'\<rparr>
      in case map_of (positions self1) tk of
           Some pos \<Rightarrow>
             let old_cost = of_int (shares pos) * avg_price pos;
                 new_cost = of_int shares' * price';
                 pos1 = pos\<lparr>shares := shares pos + shares'\<rparr>
             in if shares pos1 = 0
                then (Inl ZeroDivisionError,
                      self1\<lparr>positions := AList.update tk pos1 (positions self1)\<rparr>)
                else
                  let pos2 = pos1\<lparr>avg_price := (old_cost + new_cost) / of_int (shares pos1),
                                   current_price := price'\<rparr>;
                      pos3 = (case sl of Some v \<Rightarrow> if v \<noteq> 0 then pos2\<lparr>stop_loss := Some v\<rparr> else pos2
                              | None \<Rightarrow> pos2);
                      pos4 = (case tp of Some v \<Rightarrow> if v \<noteq> 0 then pos3\<lparr>take_profit := Some v\<rparr> else pos3
                              | None \<Rightarrow> pos3)
                  in (Inr (Some trade),
                      self1\<lparr>positions := AList.update tk pos4 (positions self1),
                             trades := trades self1 @ [trade]\<rparr>)
         | None \<Rightarrow>
             (Inr (Some trade),
              self1\<lparr>positions := AList.update tk
                        \<lparr>ticker = tk, shares = shares', avg_price = price',
                         current_price = price', entry_date = date,
                         stop_loss = sl, take_profit = tp\<rparr> (positions self1),
                     trades := trades self1 @ [trade]\<rparr>))"

text \<open>
  \<^verbatim>\<open>buy\<close>. \<^verbatim>\<open>target_value / price\<close> raises when the price is zero, and
  \<^verbatim>\<open>self.cash / (price * (1 + self.commission_pct))\<close> when the commission is \<open>-1\<close>.
\<close>

definition buy ::
  "Portfolio \<Rightarrow> string \<Rightarrow> real \<Rightarrow> real \<Rightarrow> string \<Rightarrow> real option \<Rightarrow> real option \<Rightarrow> string
     \<Rightarrow> (error + Trade option) \<times> Portfolio" where
  "buy self tk price' target_pct date sl tp reason' =
     (case can_buy self tk target_pct of
        (Inl e, self1) \<Rightarrow> (Inl e, self1)
      | (Inr (can, target_value, msg), self1) \<Rightarrow>
          if \<not> can then (Inr None, self1)
          else if price' = 0 then (Inl ZeroDivisionError, self1)
          else
            let shares' = py_int (of_int target_value / price') in
            if shares' = 0 then (Inr None, self1)
            else
              let trade_value = of_int shares' * price';
                  commission' = trade_value * commission_pct self1;
                  total_cost' = trade_value + commission'
              in if total_cost' > cash self1
                 then (if price' * (1 + commission_pct self1) = 0
                       then (Inl ZeroDivisionError, self1)
                       else
                         let shares'' = py_int (cash self1 / (price' * (1 + commission_pct self1)))
                         in if shares'' = 0 then (Inr None, self1)
                            else buy_execute self1 tk price' date sl tp reason' shares'')
                 else buy_execute self1 tk price' date sl tp reason' shares')"

subsection \<open>sell\<close>

definition sell ::
  "Portfolio \<Rightarrow> string \<Rightarrow> real \<Rightarrow> string \<Rightarrow> int option \<Rightarrow> string
     \<Rightarrow> (error + Trade option) \<times> Portfolio" where
  "sell self tk price' date shares_arg reason' =
     (case map_of (positions self) tk of
        None \<Rightarrow> (Inr None, self)
      | Some pos \<Rightarrow>
          let shares0 = (case shares_arg of None \<Rightarrow> shares pos | Some n \<Rightarrow> n);
              shares' = min shares0 (shares pos)
          in if shares' = 0 then (Inr None, self)
             else
               let trade_value = of_int shares' * price';
                   commission' = trade_value * commission_pct self;
                   net_proceeds = trade_value - commission';
                   pos1 = pos\<lparr>shares := shares pos - shares'\<rparr>;
                   positions' = (if shares pos1 = 0 then AList.delete tk (positions self)
                                 else AList.update tk pos1 (positions self));
                   trade = \<lparr>trade_date = date, trade_ticker = tk, action = ''SELL'',
                            trade_shares = shares', price = price', commission = commission',
                            total_cost = - net_proceeds, reason = reason'\<rparr>
               in (Inr (Some trade),
                   self\<lparr>cash := cash self + net_proceeds, positions := positions',
                        trades := trades self @ [trade]\<rparr>))"

subsection \<open>update_prices, check_stops, apply_selic_to_cash, record_state, summary\<close>

definition update_prices :: "Portfolio \<Rightarrow> (string \<rightharpoonup> real) \<Rightarrow> Portfolio" where
  "update_prices self prices =
     self\<lparr>positions :=
       map (\<lambda>(k, pos). case prices k of Some v \<Rightarrow> (k, pos\<lparr>current_price := v\<rparr>)
                                      | None \<Rightarrow> (k, pos))
           (positions self)\<rparr>"

text \<open>The first loop of \<^verbatim>\<open>check_stops\<close>: the positions to close, stop loss first.\<close>

fun tickers_to_close :: "(string \<times> Position) list \<Rightarrow> (string \<times> real \<times> string) list" where
  "tickers_to_close [] = []"
| "tickers_to_close ((k, pos) # ps) =
     (if should_stop_loss pos then (k, current_price pos, ''STOP_LOSS'') # tickers_to_close ps
      else if should_take_profit pos
      then (k, current_price pos, ''TAKE_PROFIT'') # tickers_to_close ps
      else tickers_to_close ps)"

text \<open>The second loop: one full sell for each of them.\<close>

fun close_positions ::
  "Portfolio \<Rightarrow> string \<Rightarrow> (string \<times> real \<times> string) list \<Rightarrow> Trade list
     \<Rightarrow> (error + Trade list) \<times> Portfolio" where
  "close_positions self date [] executed_trades = (Inr executed_trades, self)"
| "close_positions self date ((k, price', reason') # rest) executed_trades =
     (case sell self k price' date None reason' of
        (Inl e, self1) \<Rightarrow> (Inl e, self1)
      | (Inr (Some trade), self1) \<Rightarrow> close_positions self1 date rest (executed_trades @ [trade])
      | (Inr None, self1) \<Rightarrow> close_positions self1 date rest executed_trades)"

definition check_stops :: "Portfolio \<Rightarrow> string \<Rightarrow> (error + Trade list) \<times> Portfolio" where
  "check_stops self date = close_positions self date (tickers_to_close (positions self)) []"

definition apply_selic_to_cash :: "Portfolio \<Rightarrow> string \<Rightarrow> real \<Rightarrow> Portfolio" where
  "apply_selic_to_cash self date selic_daily_rate =
     (if cash self > 0 then
        let interest = cash self * selic_daily_rate
        in self\<lparr>cash := cash self + interest,
                trades := trades self @
                  [\<lparr>trade_date = date, trade_ticker = ''SELIC'', action = ''INTEREST'',
                    trade_shares = 0, price = 0, commission = 0,
                    total_cost = - interest, reason = ''SELIC_YIELD''\<rparr>]\<rparr>
      else self)"

definition record_state :: "Portfolio \<Rightarrow> string \<Rightarrow> Portfolio" where
  "record_state self date =
     (let total = total_value self;
          h = history self;
          daily_return =
            (if length (h_total_value h) > 0 then
               let prev_value = last (h_total_value h)
               in if prev_value > 0 then ((total / prev_value) - 1) * 100 else 0
             else 0)
      in self\<lparr>history :=
           \<lparr>h_date = h_date h @ [date],
            h_total_value = h_total_value h @ [total],
            h_cash = h_cash h @ [cash self],
            h_positions_value = h_positions_value h @ [positions_value self],
            h_num_positions = h_num_positions h @ [num_positions self],
            h_returns = h_returns h @ [daily_return]\<rparr>\<rparr>)"



text \<open>The default arguments of the constructor: 0.1% commission, positions of 1% to 15%.\<close>

definition default_portfolio :: "real \<Rightarrow> Portfolio" where
  "default_portfolio initial_capital' = new_portfolio initial_capital' (1 / 1000) (1 / 100) (15 / 100)"

subsection \<open>Sequences of operations\<close>

text \<open>
  The calls a driver makes on one portfolio. \<open>step\<close> is the state after one call, whether
  it returned or raised; \<open>run\<close> is the state after a sequence of calls.
\<close>

datatype operation =
    Buy string real real string "real option" "real option" string
  | Sell string real string "int option" string
  | Interest string real
  | Mark "string \<rightharpoonup> real"
  | CheckExits string
  | RecordState string

fun step :: "Portfolio \<Rightarrow> operation \<Rightarrow> Portfolio" where
  "step self (Buy tk price' target_pct date sl tp reason') =
     snd (buy self tk price' target_pct date sl tp reason')"
| "step self (Sell tk price' date shares_arg reason') =
     snd (sell self tk price' date shares_arg reason')"
| "step self (Interest date selic_daily_rate) = apply_selic_to_cash self date selic_daily_rate"
| "step self (Mark prices) = update_prices self prices"
| "step self (CheckExits date) = snd (check_stops self date)"
| "step self (RecordState date) = record_state self date"

fun run :: "Portfolio \<Rightarrow> operation list \<Rightarrow> Portfolio" where
  "run self [] = self"
| "run self (op # ops) = run (step self op) ops"

subsection \<open>Benchmark aligner\<close>

text \<open>
  A pandas series of rates is a list of labelled values; a missing value (NaN) is \<open>None\<close>.
  \<^verbatim>\<open>reindex\<close> looks every target date up in the source and raises on a source with
  duplicate labels; \<^verbatim>\<open>fillna(method='ffill')\<close> carries the last value present forward;
  \<^verbatim>\<open>mean\<close> skips missing values and is itself missing when there is none left;
  \<^verbatim>\<open>fillna(value)\<close> replaces every missing value by \<open>value\<close>.
\<close>

definition reindex :: "('d \<times> real option) list \<Rightarrow> 'd list \<Rightarrow> error + ('d \<times> real option) list" where
  "reindex series dates =
     (if \<not> distinct (map fst series) then Inl ValueError
      else Inr (map (\<lambda>d. (d, case map_of series d of None \<Rightarrow> None | Some x \<Rightarrow> x)) dates))"

fun ffill_from :: "real option \<Rightarrow> ('d \<times> real option) list \<Rightarrow> ('d \<times> real option) list" where
  "ffill_from prev [] = []"
| "ffill_from prev ((d, None) # xs) = (d, prev) # ffill_from prev xs"
| "ffill_from prev ((d, Some v) # xs) = (d, Some v) # ffill_from (Some v) xs"

definition ffill :: "('d \<times> real option) list \<Rightarrow> ('d \<times> real option) list" where
  "ffill series = ffill_from None series"

definition isna_any :: "('d \<times> real option) list \<Rightarrow> bool" where
  "isna_any series = (None \<in> set (map snd series))"

definition series_mean :: "('d \<times> real option) list \<Rightarrow> real option" where
  "series_mean series =
     (let present = [v. (d, Some v) \<leftarrow> series]
      in if present = [] then None else Some (sum_list present / of_nat (length present)))"

definition fillna :: "real option \<Rightarrow> ('d \<times> real option) list \<Rightarrow> ('d \<times> real option) list" where
  "fillna value' series = map (\<lambda>(d, x). (d, case x of None \<Rightarrow> value' | Some v \<Rightarrow> Some v)) series"

definition align_cdi_to_portfolio ::
  "'d list \<Rightarrow> ('d \<times> real option) list \<Rightarrow> error + ('d \<times> real option) list" where
  "align_cdi_to_portfolio portfolio_dates cdi_daily =
     (case reindex cdi_daily portfolio_dates of
        Inl e \<Rightarrow> Inl e
      | Inr cdi_aligned \<Rightarrow>
          let cdi_aligned1 = ffill cdi_aligned
          in if isna_any cdi_aligned1
             then Inr (fillna (series_mean cdi_daily) cdi_aligned1)
             else Inr cdi_aligned1)"

subsection \<open>Maximum drawdown\<close>









text \<open>
  The maximum drawdown in the words of the specification: the cumulative product of
  \<open>1 + r\<close> up to a point, its running maximum there, and the most negative value of
  \<open>(cumulative - runningMax) / runningMax\<close> over all points.
\<close>

definition spec_cumulative :: "real list \<Rightarrow> nat \<Rightarrow> real" where
  "spec_cumulative rs k = prod_list (map (\<lambda>r. 1 + r) (take (Suc k) rs))"

definition spec_running_max :: "real list \<Rightarrow> nat \<Rightarrow> real" where
  "spec_running_max rs k = Max (set (map (spec_cumulative rs) [0..<Suc k]))"


subsection \<open>Well-formed states and calls\<close>

text \<open>
  The states and arguments of an ordinary simulation: cash that is not negative, a
  commission between 0 and 100%, size bounds in order, held positions with a positive
  share count and a mark price that is not negative; purchases at a positive price,
  sales at a price that is not negative of a share count that is not negative, marks
  that are not negative, and a daily rate of at least -100%.
\<close>

definition well_formed :: "Portfolio \<Rightarrow> bool" where
  "well_formed self \<longleftrightarrow>
     0 \<le> cash self \<and> 0 \<le> commission_pct self \<and> commission_pct self \<le> 1
     \<and> 0 \<le> min_position_size self \<and> min_position_size self \<le> max_position_size self
     \<and> list_all (\<lambda>(k, pos). 0 < shares pos \<and> 0 \<le> current_price pos) (positions self)"

fun valid_operation :: "operation \<Rightarrow> bool" where
  "valid_operation (Buy tk price' target_pct date sl tp reason') = (0 < price')"
| "valid_operation (Sell tk price' date shares_arg reason') =
     (0 \<le> price' \<and> (case shares_arg of None \<Rightarrow> True | Some n \<Rightarrow> 0 \<le> n))"
| "valid_operation (Interest date selic_daily_rate) = (- 1 \<le> selic_daily_rate)"
| "valid_operation (Mark prices) = (\<forall>v \<in> ran prices. 0 \<le> v)"
| "valid_operation (CheckExits date) = True"
| "valid_operation (RecordState date) = True"


subsection \<open>Scaling all monetary amounts\<close>








section \<open>Properties\<close>

subsection \<open>can_buy is a query\<close>

lemma can_buy_cash_state: "snd (can_buy_cash self target_value) = self"
  by (simp add: can_buy_cash_def Let_def)

lemma can_buy_state: "snd (can_buy self tk target_pct) = self"
  by (simp add: can_buy_def can_buy_cash_state Let_def split: option.split)



text \<open>
  C10. \<^verbatim>\<open>can_buy\<close> leaves the whole state of the portfolio as it was (the cash, the
  positions, the trades and the history with it), and any number of successive calls
  all return the result of the first.
\<close>

theorem can_buy_side_effect_free:
  "snd (can_buy self tk target_pct) = self
   \<and> can_buy_times n self tk target_pct
       = (replicate n (fst (can_buy self tk target_pct)), self)"
proof
  show "snd (can_buy self tk target_pct) = self" by (rule can_buy_state)
next
  show "can_buy_times n self tk target_pct
       = (replicate n (fst (can_buy self tk target_pct)), self)"
  proof (induction n)
    case 0
    show ?case by simp
  next
    case (Suc n)
    obtain r self' where r: "can_buy self tk target_pct = (r, self')"
      by (cases "can_buy self tk target_pct")
    with can_buy_state [of self tk target_pct] have "self' = self" by simp
    with r Suc show ?case by simp
  qed
qed

subsection \<open>Cash and share counts along a run\<close>

lemma py_int_nonneg: "0 \<le> x \<Longrightarrow> 0 \<le> py_int x"
  by (simp add: py_int_def)

lemma py_int_mult_le:
  assumes "d \<noteq> 0" "0 \<le> x"
  shows "of_int (py_int (x / d)) * d \<le> x"
proof (cases "0 < d")
  case True
  then have "0 \<le> x / d" using assms by simp
  then have "py_int (x / d) = \<lfloor>x / d\<rfloor>" by (simp add: py_int_def)
  moreover have "of_int \<lfloor>x / d\<rfloor> \<le> x / d" by simp
  ultimately have "of_int (py_int (x / d)) \<le> x / d" by simp
  then show ?thesis using True by (simp add: pos_le_divide_eq)
next
  case False
  then have neg: "d < 0" using assms by simp
  show ?thesis
  proof (cases "x = 0")
    case True
    then show ?thesis by (simp add: py_int_def)
  next
    case False
    then have "x / d < 0" using neg assms by (simp add: divide_pos_neg)
    then have "py_int (x / d) = \<lceil>x / d\<rceil>" by (simp add: py_int_def)
    moreover have "x / d \<le> of_int \<lceil>x / d\<rceil>" by simp
    ultimately have "x / d \<le> of_int (py_int (x / d))" by simp
    then show ?thesis using neg by (simp add: neg_divide_le_eq)
  qed
qed

lemma buy_execute_cash:
  "cash (snd (buy_execute self tk p date sl tp r sh))
     = cash self - of_int sh * (p * (1 + commission_pct self))"
  by (simp add: buy_execute_def Let_def algebra_simps split: option.split)


lemma set_update_subset: "set (AList.update k v al) \<subseteq> insert (k, v) (set al)"
  by (induction al) auto

lemma list_all_update:
  "list_all P al \<Longrightarrow> P (k, v) \<Longrightarrow> list_all P (AList.update k v al)"
  using set_update_subset [of k v al] by (auto simp: list_all_iff)

lemma list_all_delete: "list_all P al \<Longrightarrow> list_all P (AList.delete k al)"
  by (auto simp: list_all_iff AList.delete_eq)

lemma positions_value_nonneg:
  "list_all (\<lambda>(k, pos). 0 < shares pos \<and> 0 \<le> current_price pos) ps \<Longrightarrow>
   0 \<le> sum_list (map (\<lambda>(k, pos). market_value pos) ps)"
  by (induction ps) (auto simp: market_value_def)

lemma total_value_nonneg: "well_formed self \<Longrightarrow> 0 \<le> total_value self"
  using positions_value_nonneg [of "positions self"]
  by (simp add: well_formed_def total_value_def positions_value_def)

lemma can_buy_cash_value_nonneg:
  assumes "well_formed self" "0 \<le> tv" "can_buy_cash self tv = (Inr (True, v, m), self')"
  shows "0 \<le> v"
proof -
  have "0 \<le> cash self / (1 + commission_pct self)"
    using assms(1) by (simp add: well_formed_def)
  then show ?thesis
    using assms py_int_nonneg
    by (auto simp: can_buy_cash_def Let_def split: if_splits)
qed

lemma can_buy_value_nonneg:
  assumes wf: "well_formed self" and cb: "can_buy self tk w = (Inr (True, v, m), self')"
  shows "0 \<le> v"
proof -
  let ?w = "if w > max_position_size self * 100 then max_position_size self * 100 else w"
  let ?tv = "(?w / 100) * total_value self"
  from cb have ge: "min_position_size self * 100 \<le> w"
    by (auto simp: can_buy_def split: if_splits)
  with wf have "0 \<le> ?w" by (auto simp: well_formed_def)
  with total_value_nonneg [OF wf] have tv: "0 \<le> ?tv" by simp
  have lim: "0 \<le> total_value self * min_position_size self"
    using total_value_nonneg [OF wf] wf by (simp add: well_formed_def)
  show ?thesis
  proof (cases "map_of (positions self) tk")
    case None
    with cb ge have "can_buy_cash self ?tv = (Inr (True, v, m), self')"
      by (simp add: can_buy_def Let_def)
    with can_buy_cash_value_nonneg [OF wf tv] show ?thesis by blast
  next
    case (Some pos)
    let ?add = "?tv - market_value pos"
    from cb ge Some have a: "\<not> ?add < total_value self * min_position_size self"
      by (auto simp: can_buy_def Let_def split: if_splits)
    with cb ge Some have "can_buy_cash self ?add = (Inr (True, v, m), self')"
      by (simp add: can_buy_def Let_def)
    moreover from a lim have "0 \<le> ?add" by linarith
    ultimately show ?thesis using can_buy_cash_value_nonneg [OF wf] by blast
  qed
qed

lemma buy_execute_well_formed:
  assumes wf: "well_formed self" and sh: "0 < sh" and p: "0 < p"
      and le: "of_int sh * (p * (1 + commission_pct self)) \<le> cash self"
  shows "well_formed (snd (buy_execute self tk p date sl tp r sh))"
proof -
  let ?P = "\<lambda>(k, pos). 0 < shares pos \<and> (0::real) \<le> current_price pos"
  from wf have all: "list_all ?P (positions self)" by (simp add: well_formed_def)
  have cash': "0 \<le> cash (snd (buy_execute self tk p date sl tp r sh))"
    using le by (simp add: buy_execute_cash)
  have pos': "list_all ?P (positions (snd (buy_execute self tk p date sl tp r sh)))"
  proof (cases "map_of (positions self) tk")
    case None
    then show ?thesis
      using all sh p by (simp add: buy_execute_def Let_def list_all_update)
  next
    case (Some pos)
    then have "(tk, pos) \<in> set (positions self)" by (rule map_of_SomeD)
    with all have "0 < shares pos" by (auto simp: list_all_iff)
    with sh have "0 < shares pos + sh" by simp
    then show ?thesis
      using Some all p
      by (auto simp: buy_execute_def Let_def intro!: list_all_update split: option.split)
  qed
  have rest: "commission_pct (snd (buy_execute self tk p date sl tp r sh)) = commission_pct self
      \<and> min_position_size (snd (buy_execute self tk p date sl tp r sh)) = min_position_size self
      \<and> max_position_size (snd (buy_execute self tk p date sl tp r sh)) = max_position_size self"
    by (simp add: buy_execute_def Let_def split: option.split)
  show ?thesis
    using wf cash' pos' rest by (simp add: well_formed_def)
qed

lemma buy_well_formed:
  assumes wf: "well_formed self" and p: "0 < p"
  shows "well_formed (snd (buy self tk p w date sl tp r))"
proof -
  obtain res self1 where cb: "can_buy self tk w = (res, self1)" by (cases "can_buy self tk w")
  with can_buy_state [of self tk w] have s1: "self1 = self" by simp
  show ?thesis
  proof (cases res)
    case (Inl e)
    with cb s1 wf show ?thesis by (simp add: buy_def)
  next
    case (Inr x)
    obtain can v m where x: "x = (can, v, m)" by (cases x)
    show ?thesis
    proof (cases can)
      case False
      with cb s1 Inr x wf show ?thesis by (simp add: buy_def)
    next
      case True
      let ?c = "commission_pct self"
      let ?sh = "py_int (of_int v / p)"
      let ?sh2 = "py_int (cash self / (p * (1 + ?c)))"
      from wf have c: "0 \<le> ?c" and cash: "0 \<le> cash self" by (simp_all add: well_formed_def)
      from c p have d: "0 < p * (1 + ?c)" by (simp add: add_nonneg_pos)
      from can_buy_value_nonneg [OF wf] cb Inr x True have "0 \<le> v" by simp
      with p have sh: "0 \<le> ?sh" by (simp add: py_int_nonneg)
      from cash d have sh2: "0 \<le> ?sh2" by (simp add: py_int_nonneg)
      from d have d0: "p * (1 + ?c) \<noteq> 0" by (rule less_imp_neq [THEN not_sym])
      have shrink: "of_int ?sh2 * (p * (1 + ?c)) \<le> cash self"
        by (rule py_int_mult_le [OF d0 cash])
      have e1: "?sh \<noteq> 0 \<Longrightarrow> of_int ?sh * (p * (1 + ?c)) \<le> cash self
          \<Longrightarrow> well_formed (snd (buy_execute self tk p date sl tp r ?sh))"
        using buy_execute_well_formed [OF wf _ p, of ?sh] sh by simp
      have e2: "?sh2 \<noteq> 0 \<Longrightarrow> well_formed (snd (buy_execute self tk p date sl tp r ?sh2))"
        using buy_execute_well_formed [OF wf _ p shrink] sh2 by simp
      have direct: "\<not> of_int ?sh * p + of_int ?sh * p * ?c > cash self
          \<Longrightarrow> of_int ?sh * (p * (1 + ?c)) \<le> cash self"
        by (simp add: algebra_simps)
      show ?thesis
        using cb s1 Inr x True wf e1 e2 direct
        by (simp add: buy_def Let_def)
    qed
  qed
qed

lemma sell_well_formed:
  assumes wf: "well_formed self" and p: "0 \<le> p"
      and n: "case shares_arg of None \<Rightarrow> True | Some n \<Rightarrow> 0 \<le> n"
  shows "well_formed (snd (sell self tk p date shares_arg r))"
proof (cases "map_of (positions self) tk")
  case None
  with wf show ?thesis by (simp add: sell_def)
next
  case (Some pos)
  let ?P = "\<lambda>(k, pos). 0 < shares pos \<and> (0::real) \<le> current_price pos"
  let ?sh = "min (case shares_arg of None \<Rightarrow> shares pos | Some n \<Rightarrow> n) (shares pos)"
  from wf have all: "list_all ?P (positions self)" by (simp add: well_formed_def)
  from Some have "(tk, pos) \<in> set (positions self)" by (rule map_of_SomeD)
  with all have held: "0 < shares pos" "0 \<le> current_price pos" by (auto simp: list_all_iff)
  from n held have sh: "0 \<le> ?sh" by (cases shares_arg) simp_all
  have le: "?sh \<le> shares pos" by simp
  from wf have c: "commission_pct self \<le> 1" and cash: "0 \<le> cash self"
    by (simp_all add: well_formed_def)
  have "0 \<le> of_int ?sh * p * (1 - commission_pct self)"
    using sh p c by simp
  then have net: "0 \<le> of_int ?sh * p - of_int ?sh * p * commission_pct self"
    by (simp add: algebra_simps)
  have upd: "shares pos - ?sh \<noteq> 0 \<Longrightarrow>
      list_all ?P (AList.update tk (pos\<lparr>shares := shares pos - ?sh\<rparr>) (positions self))"
    using all held le by (intro list_all_update) auto
  show ?thesis
    using Some wf cash net upd all
    by (simp add: sell_def Let_def well_formed_def list_all_delete)
qed

lemma update_prices_well_formed:
  assumes wf: "well_formed self" and v: "\<forall>v \<in> ran prices. 0 \<le> v"
  shows "well_formed (update_prices self prices)"
proof -
  let ?P = "\<lambda>(k, pos). 0 < shares pos \<and> (0::real) \<le> current_price pos"
  let ?f = "\<lambda>(k, pos). case prices k of Some v \<Rightarrow> (k, pos\<lparr>current_price := v\<rparr>)
                                      | None \<Rightarrow> (k, pos)"
  have ok: "0 \<le> v" if "prices k = Some v" for k v
    using v that by (auto simp: ran_def)
  have m: "list_all ?P (map ?f ps)" if "list_all ?P ps" for ps
    using that by (induction ps) (auto split: option.splits dest: ok)
  from wf have "list_all ?P (positions self)" by (simp add: well_formed_def)
  from m [OF this] wf show ?thesis
    by (simp add: well_formed_def update_prices_def)
qed

lemma apply_selic_well_formed:
  assumes wf: "well_formed self" and r: "- 1 \<le> rate"
  shows "well_formed (apply_selic_to_cash self date rate)"
proof -
  have "0 < cash self \<Longrightarrow> 0 \<le> cash self + cash self * rate"
  proof -
    assume "0 < cash self"
    moreover from r have "0 \<le> 1 + rate" by simp
    ultimately have "0 \<le> cash self * (1 + rate)" by simp
    then show ?thesis by (simp add: algebra_simps)
  qed
  then show ?thesis
    using wf by (simp add: well_formed_def apply_selic_to_cash_def Let_def)
qed

lemma record_state_well_formed: "well_formed self \<Longrightarrow> well_formed (record_state self date)"
  by (simp add: well_formed_def record_state_def Let_def)

lemma close_positions_well_formed:
  "well_formed self \<Longrightarrow> list_all (\<lambda>(k, p, r). 0 \<le> p) todo \<Longrightarrow>
   well_formed (snd (close_positions self date todo acc))"
proof (induction todo arbitrary: self acc)
  case Nil
  then show ?case by simp
next
  case (Cons x todo)
  obtain k p r where x: "x = (k, p, r)" by (cases x)
  obtain res self1 where s: "sell self k p date None r = (res, self1)"
    by (cases "sell self k p date None r")
  from Cons.prems x have "0 \<le> p" by simp
  with sell_well_formed [OF Cons.prems(1), of p None k date r] s
  have wf1: "well_formed self1" by simp
  from Cons.prems have rest: "list_all (\<lambda>(k, p, r). 0 \<le> p) todo" by simp
  show ?case
    using x s wf1 Cons.IH [OF wf1 rest]
    by (simp split: sum.split option.split)
qed

lemma tickers_to_close_prices:
  "list_all (\<lambda>(k, pos). 0 < shares pos \<and> 0 \<le> current_price pos) ps \<Longrightarrow>
   list_all (\<lambda>(k, p, r). 0 \<le> p) (tickers_to_close ps)"
  by (induction ps rule: tickers_to_close.induct) simp_all

lemma check_stops_well_formed: "well_formed self \<Longrightarrow> well_formed (snd (check_stops self date))"
  unfolding check_stops_def
  by (rule close_positions_well_formed) (simp_all add: tickers_to_close_prices well_formed_def)

lemma step_well_formed:
  "well_formed self \<Longrightarrow> valid_operation op \<Longrightarrow> well_formed (step self op)"
  by (cases op)
    (simp_all add: buy_well_formed sell_well_formed apply_selic_well_formed
      update_prices_well_formed check_stops_well_formed record_state_well_formed)

lemma run_well_formed:
  "well_formed self \<Longrightarrow> list_all valid_operation ops \<Longrightarrow> well_formed (run self ops)"
  by (induction ops arbitrary: self) (simp_all add: step_well_formed)

lemma list_all_take: "list_all P xs \<Longrightarrow> list_all P (take n xs)"
  by (auto simp: list_all_iff dest: in_set_takeD)

lemmas eval_defs =
  default_portfolio_def new_portfolio_def buy_def can_buy_def can_buy_cash_def
  total_value_def positions_value_def market_value_def py_int_def buy_execute_def Let_def
  sell_def apply_selic_to_cash_def




text \<open>
  C5, as amended. From a well-formed state, after every call of a sequence of well-formed
  calls of \<^verbatim>\<open>buy\<close>, \<^verbatim>\<open>sell\<close>, \<^verbatim>\<open>check_stops\<close>, \<^verbatim>\<open>update_prices\<close>,
  \<^verbatim>\<open>apply_selic_to_cash\<close> and \<^verbatim>\<open>record_state\<close>, every position in the dictionary has a
  positive share count. And a sale of the whole of a position removes its key from the
  dictionary.
\<close>

theorem no_zero_share_position:
  "(well_formed self \<and> list_all valid_operation ops \<and> n \<le> length ops
      \<longrightarrow> list_all (\<lambda>(k, pos). 0 < shares pos) (positions (run self (take n ops))))
   \<and> (map_of (positions self) tk = Some pos \<and> shares pos \<noteq> 0
        \<and> (shares_arg = None \<or> shares_arg = Some (shares pos))
      \<longrightarrow> tk \<notin> fst ` set (positions (snd (sell self tk p date shares_arg r))))"
proof (intro conjI impI)
  assume a: "well_formed self \<and> list_all valid_operation ops \<and> n \<le> length ops"
  then have "list_all valid_operation (take n ops)" by (simp add: list_all_take)
  with a have "well_formed (run self (take n ops))" by (simp add: run_well_formed)
  then show "list_all (\<lambda>(k, pos). 0 < shares pos) (positions (run self (take n ops)))"
    by (auto simp: well_formed_def list_all_iff)
next
  assume "map_of (positions self) tk = Some pos \<and> shares pos \<noteq> 0
        \<and> (shares_arg = None \<or> shares_arg = Some (shares pos))"
  then show "tk \<notin> fst ` set (positions (snd (sell self tk p date shares_arg r)))"
    by (auto simp: sell_def Let_def AList.delete_notin_dom)
qed

theorem no_zero_share_position_witness:
  "(well_formed (default_portfolio 1000)
    \<and> list_all valid_operation
         [Buy ''PETR4.SA'' 10 10 ''2024-01-02'' None None ''INITIAL'',
          Sell ''PETR4.SA'' 11 ''2024-01-03'' (Some 4) ''SIGNAL'']
    \<and> map (\<lambda>(k, pos). (k, shares pos)) (positions (run (default_portfolio 1000)
         [Buy ''PETR4.SA'' 10 10 ''2024-01-02'' None None ''INITIAL'',
          Sell ''PETR4.SA'' 11 ''2024-01-03'' (Some 4) ''SIGNAL''])) = [(''PETR4.SA'', 6)]
    \<and> list_all (\<lambda>(k, pos). 0 < shares pos) (positions (run (default_portfolio 1000)
         [Buy ''PETR4.SA'' 10 10 ''2024-01-02'' None None ''INITIAL'',
          Sell ''PETR4.SA'' 11 ''2024-01-03'' (Some 4) ''SIGNAL''])))
   \<and> (map_of (positions (run (default_portfolio 1000)
            [Buy ''PETR4.SA'' 10 10 ''2024-01-02'' None None ''INITIAL''])) ''PETR4.SA''
        = Some \<lparr>ticker = ''PETR4.SA'', shares = 10, avg_price = 10, current_price = 10,
                entry_date = ''2024-01-02'', stop_loss = None, take_profit = None\<rparr>
      \<and> ''PETR4.SA'' \<notin> fst ` set (positions (snd (sell
           (run (default_portfolio 1000)
             [Buy ''PETR4.SA'' 10 10 ''2024-01-02'' None None ''INITIAL''])
           ''PETR4.SA'' 11 ''2024-01-03'' None ''SIGNAL''))))"
proof -
  have held: "map_of (positions (run (default_portfolio 1000)
            [Buy ''PETR4.SA'' 10 10 ''2024-01-02'' None None ''INITIAL''])) ''PETR4.SA''
        = Some \<lparr>ticker = ''PETR4.SA'', shares = 10, avg_price = 10, current_price = 10,
                entry_date = ''2024-01-02'', stop_loss = None, take_profit = None\<rparr>"
    by (simp add: eval_defs)
  have removed: "''PETR4.SA'' \<notin> fst ` set (positions (snd (sell
           (run (default_portfolio 1000)
             [Buy ''PETR4.SA'' 10 10 ''2024-01-02'' None None ''INITIAL''])
           ''PETR4.SA'' 11 ''2024-01-03'' None ''SIGNAL'')))"
    using held
      no_zero_share_position [of
        "run (default_portfolio 1000) [Buy ''PETR4.SA'' 10 10 ''2024-01-02'' None None ''INITIAL'']"
        "[]" 0 "''PETR4.SA''"
        "\<lparr>ticker = ''PETR4.SA'', shares = 10, avg_price = 10, current_price = 10,
          entry_date = ''2024-01-02'', stop_loss = None, take_profit = None\<rparr>"
        None 11 "''2024-01-03''" "''SIGNAL''"]
    by simp
  have kept: "well_formed (default_portfolio 1000)
    \<and> list_all valid_operation
         [Buy ''PETR4.SA'' 10 10 ''2024-01-02'' None None ''INITIAL'',
          Sell ''PETR4.SA'' 11 ''2024-01-03'' (Some 4) ''SIGNAL'']
    \<and> map (\<lambda>(k, pos). (k, shares pos)) (positions (run (default_portfolio 1000)
         [Buy ''PETR4.SA'' 10 10 ''2024-01-02'' None None ''INITIAL'',
          Sell ''PETR4.SA'' 11 ''2024-01-03'' (Some 4) ''SIGNAL''])) = [(''PETR4.SA'', 6)]
    \<and> list_all (\<lambda>(k, pos). 0 < shares pos) (positions (run (default_portfolio 1000)
         [Buy ''PETR4.SA'' 10 10 ''2024-01-02'' None None ''INITIAL'',
          Sell ''PETR4.SA'' 11 ''2024-01-03'' (Some 4) ''SIGNAL'']))"
    using no_zero_share_position [of "default_portfolio 1000"
        "[Buy ''PETR4.SA'' 10 10 ''2024-01-02'' None None ''INITIAL'',
          Sell ''PETR4.SA'' 11 ''2024-01-03'' (Some 4) ''SIGNAL'']" 2]
    by (simp add: eval_defs well_formed_def)
  from kept held removed show ?thesis by blast
qed

text \<open>
  C5 as stated fails: a purchase at a negative price is executed, and it creates a
  position of -10 shares.
\<close>

theorem negative_shares_counterexample:
  "map_option shares (map_of (positions (step (default_portfolio 1000)
      (Buy ''PETR4.SA'' (- 10) 10 ''2024-01-02'' None None ''INITIAL''))) ''PETR4.SA'')
     = Some (- 10)"
  by (simp add: eval_defs)

subsection \<open>Executed trades\<close>

lemma buy_execute_trade:
  assumes "buy_execute self tk p date sl tp r sh = (Inr (Some t), self')"
  shows "action t = ''BUY'' \<and> trade_shares t = sh \<and> price t = p
     \<and> commission t = of_int sh * p * commission_pct self
     \<and> total_cost t = of_int sh * p + of_int sh * p * commission_pct self
     \<and> cash self' = cash self - total_cost t
     \<and> trades self' = trades self @ [t]
     \<and> commission_pct self' = commission_pct self"
  using assms
  by (auto simp: buy_execute_def Let_def split: option.splits if_splits)

lemma buy_trade:
  assumes "buy self tk p w date sl tp r = (Inr (Some t), self')"
  shows "action t = ''BUY'' \<and> price t = p \<and> p \<noteq> 0 \<and> trade_shares t \<noteq> 0
     \<and> commission t = of_int (trade_shares t) * p * commission_pct self
     \<and> total_cost t = of_int (trade_shares t) * p + commission t
     \<and> cash self' = cash self - total_cost t
     \<and> trades self' = trades self @ [t]
     \<and> commission_pct self' = commission_pct self"
proof -
  obtain res self1 where cb: "can_buy self tk w = (res, self1)" by (cases "can_buy self tk w")
  with can_buy_state [of self tk w] have s1: "self1 = self" by simp
  from assms cb s1 obtain sh where
    ex: "buy_execute self tk p date sl tp r sh = (Inr (Some t), self')" and "sh \<noteq> 0" "p \<noteq> 0"
    by (auto simp: buy_def Let_def split: sum.splits prod.splits if_splits)
  with buy_execute_trade [OF ex] show ?thesis by simp
qed

lemma sell_trade:
  assumes "sell self tk p date shares_arg r = (Inr (Some t), self')"
  shows "action t = ''SELL'' \<and> price t = p \<and> trade_shares t \<noteq> 0
     \<and> commission t = of_int (trade_shares t) * p * commission_pct self
     \<and> total_cost t = - (of_int (trade_shares t) * p - commission t)
     \<and> cash self' = cash self - total_cost t
     \<and> trades self' = trades self @ [t]"
  using assms
  by (auto simp: sell_def Let_def split: option.splits if_splits)

lemma buy_new_position:
  assumes "map_of (positions self) tk = None"
      and "buy self tk p w date sl tp r = (Inr (Some t), self')"
  shows "map_of (positions self') tk
     = Some \<lparr>ticker = tk, shares = trade_shares t, avg_price = p, current_price = p,
             entry_date = date, stop_loss = sl, take_profit = tp\<rparr>"
proof -
  obtain res self1 where cb: "can_buy self tk w = (res, self1)" by (cases "can_buy self tk w")
  with can_buy_state [of self tk w] have s1: "self1 = self" by simp
  from assms(2) cb s1 obtain sh where
    ex: "buy_execute self tk p date sl tp r sh = (Inr (Some t), self')"
    by (auto simp: buy_def Let_def split: sum.splits prod.splits if_splits)
  with assms(1) show ?thesis
    by (auto simp: buy_execute_def Let_def AList.update_conv')
qed

text \<open>
  C7. In a portfolio where the ticker is not held, a purchase that is executed, followed
  at once by the sale of the whole position at the same price, pays the same commission
  on both legs and leaves the cash at its value before the purchase minus twice that
  commission; with a commission rate other than zero this is not the cash before the
  purchase.
\<close>

theorem buy_then_sell_round_trip:
  assumes "map_of (positions self) tk = None"
      and "buy self tk p w date sl tp r = (Inr (Some t1), self1)"
      and "shares_arg = None \<or> shares_arg = Some (trade_shares t1)"
  shows "\<exists>t2 self2. sell self1 tk p date' shares_arg r' = (Inr (Some t2), self2)
           \<and> trade_shares t2 = trade_shares t1
           \<and> commission t2 = commission t1
           \<and> cash self2 = cash self - 2 * commission t1
           \<and> (commission_pct self \<noteq> 0 \<longrightarrow> cash self2 \<noteq> cash self)"
proof -
  from buy_trade [OF assms(2)] have b:
    "p \<noteq> 0" "trade_shares t1 \<noteq> 0"
    "commission t1 = of_int (trade_shares t1) * p * commission_pct self"
    "total_cost t1 = of_int (trade_shares t1) * p + commission t1"
    "cash self1 = cash self - total_cost t1"
    "commission_pct self1 = commission_pct self"
    by simp_all
  from buy_new_position [OF assms(1,2)] have pos:
    "map_of (positions self1) tk
     = Some \<lparr>ticker = tk, shares = trade_shares t1, avg_price = p, current_price = p,
             entry_date = date, stop_loss = sl, take_profit = tp\<rparr>" .
  from b have ne: "commission_pct self \<noteq> 0 \<Longrightarrow> commission t1 \<noteq> 0" by simp
  show ?thesis
    using pos b assms(3) ne
    by (auto simp: sell_def Let_def)
qed

theorem buy_then_sell_round_trip_witness:
  "map_of (positions (default_portfolio 1000)) ''PETR4.SA'' = None
   \<and> fst (buy (default_portfolio 1000) ''PETR4.SA'' 10 10 ''2024-01-02'' None None ''INITIAL'')
       = Inr (Some \<lparr>trade_date = ''2024-01-02'', trade_ticker = ''PETR4.SA'', action = ''BUY'',
                    trade_shares = 10, price = 10, commission = 1 / 10,
                    total_cost = 1001 / 10, reason = ''INITIAL''\<rparr>)
   \<and> cash (snd (sell
        (snd (buy (default_portfolio 1000) ''PETR4.SA'' 10 10 ''2024-01-02'' None None ''INITIAL''))
        ''PETR4.SA'' 10 ''2024-01-02'' None ''SIGNAL''))
       = cash (default_portfolio 1000) - 2 * (1 / 10)"
proof -
  let ?P = "default_portfolio 1000"
  let ?t1 = "\<lparr>trade_date = ''2024-01-02'', trade_ticker = ''PETR4.SA'', action = ''BUY'',
                    trade_shares = 10, price = 10, commission = 1 / 10,
                    total_cost = 1001 / 10, reason = ''INITIAL''\<rparr>"
  let ?S1 = "snd (buy ?P ''PETR4.SA'' 10 10 ''2024-01-02'' None None ''INITIAL'')"
  have fresh: "map_of (positions ?P) ''PETR4.SA'' = None"
    by (simp add: default_portfolio_def new_portfolio_def)
  have bought: "fst (buy ?P ''PETR4.SA'' 10 10 ''2024-01-02'' None None ''INITIAL'') = Inr (Some ?t1)"
    by (simp add: eval_defs)
  then have b: "buy ?P ''PETR4.SA'' 10 10 ''2024-01-02'' None None ''INITIAL'' = (Inr (Some ?t1), ?S1)"
    by (simp add: prod_eq_iff)
  from buy_then_sell_round_trip [OF fresh b, of None "''2024-01-02''" "''SIGNAL''"]
  have "cash (snd (sell ?S1 ''PETR4.SA'' 10 ''2024-01-02'' None ''SIGNAL''))
       = cash ?P - 2 * (1 / 10)"
    by auto
  with fresh bought show ?thesis by simp
qed

text \<open>
  C2, as amended. The \<^verbatim>\<open>total_cost\<close> of every trade appended to the ledger is the cash
  that left the portfolio, the cash before the call minus the cash after it: a \<^verbatim>\<open>BUY\<close>
  records the trade value plus the commission, a \<^verbatim>\<open>SELL\<close> records minus the net
  proceeds, an \<^verbatim>\<open>INTEREST\<close> entry minus the interest.
\<close>

theorem trade_total_cost_is_cash_outflow:
  "(buy self tk p w date sl tp r = (Inr (Some t), self') \<longrightarrow>
      action t = ''BUY'' \<and> trades self' = trades self @ [t]
      \<and> total_cost t = of_int (trade_shares t) * p + commission t
      \<and> total_cost t = cash self - cash self')
   \<and> (sell self tk p date shares_arg r = (Inr (Some t), self') \<longrightarrow>
      action t = ''SELL'' \<and> trades self' = trades self @ [t]
      \<and> total_cost t = - (of_int (trade_shares t) * p - commission t)
      \<and> total_cost t = cash self - cash self')
   \<and> (0 < cash self \<and> self' = apply_selic_to_cash self date rate \<longrightarrow>
      (\<exists>t. action t = ''INTEREST'' \<and> trades self' = trades self @ [t]
         \<and> total_cost t = - (cash self * rate)
         \<and> total_cost t = cash self - cash self'))"
proof -
  have b: "buy self tk p w date sl tp r = (Inr (Some t), self') \<longrightarrow>
      action t = ''BUY'' \<and> trades self' = trades self @ [t]
      \<and> total_cost t = of_int (trade_shares t) * p + commission t
      \<and> total_cost t = cash self - cash self'"
  proof
    assume "buy self tk p w date sl tp r = (Inr (Some t), self')"
    from buy_trade [OF this]
    show "action t = ''BUY'' \<and> trades self' = trades self @ [t]
      \<and> total_cost t = of_int (trade_shares t) * p + commission t
      \<and> total_cost t = cash self - cash self'"
      by simp
  qed
  have s: "sell self tk p date shares_arg r = (Inr (Some t), self') \<longrightarrow>
      action t = ''SELL'' \<and> trades self' = trades self @ [t]
      \<and> total_cost t = - (of_int (trade_shares t) * p - commission t)
      \<and> total_cost t = cash self - cash self'"
  proof
    assume "sell self tk p date shares_arg r = (Inr (Some t), self')"
    from sell_trade [OF this]
    show "action t = ''SELL'' \<and> trades self' = trades self @ [t]
      \<and> total_cost t = - (of_int (trade_shares t) * p - commission t)
      \<and> total_cost t = cash self - cash self'"
      by simp
  qed
  have i: "0 < cash self \<and> self' = apply_selic_to_cash self date rate \<longrightarrow>
      (\<exists>t. action t = ''INTEREST'' \<and> trades self' = trades self @ [t]
         \<and> total_cost t = - (cash self * rate)
         \<and> total_cost t = cash self - cash self')"
    by (simp add: apply_selic_to_cash_def Let_def)
  from b s i show ?thesis by blast
qed

theorem trade_total_cost_is_cash_outflow_witness:
  "cash (default_portfolio 1000)
     - cash (snd (buy (default_portfolio 1000) ''PETR4.SA'' 10 10 ''2024-01-02'' None None ''INITIAL''))
     = 1001 / 10
   \<and> cash (snd (buy (default_portfolio 1000) ''PETR4.SA'' 10 10 ''2024-01-02'' None None ''INITIAL''))
     - cash (snd (sell
        (snd (buy (default_portfolio 1000) ''PETR4.SA'' 10 10 ''2024-01-02'' None None ''INITIAL''))
        ''PETR4.SA'' 10 ''2024-01-03'' None ''SIGNAL''))
     = - (999 / 10)
   \<and> (0 < cash (default_portfolio 1000)
      \<and> cash (default_portfolio 1000)
          - cash (apply_selic_to_cash (default_portfolio 1000) ''2024-01-03'' (1 / 2000))
        = - (1 / 2))"
proof -
  let ?P = "default_portfolio 1000"
  let ?t1 = "\<lparr>trade_date = ''2024-01-02'', trade_ticker = ''PETR4.SA'', action = ''BUY'',
                    trade_shares = 10, price = 10, commission = 1 / 10,
                    total_cost = 1001 / 10, reason = ''INITIAL''\<rparr>"
  let ?t2 = "\<lparr>trade_date = ''2024-01-03'', trade_ticker = ''PETR4.SA'', action = ''SELL'',
                  trade_shares = 10, price = 10, commission = 1 / 10,
                  total_cost = - (999 / 10), reason = ''SIGNAL''\<rparr>"
  let ?S1 = "snd (buy ?P ''PETR4.SA'' 10 10 ''2024-01-02'' None None ''INITIAL'')"
  let ?S2 = "snd (sell ?S1 ''PETR4.SA'' 10 ''2024-01-03'' None ''SIGNAL'')"
  have "fst (buy ?P ''PETR4.SA'' 10 10 ''2024-01-02'' None None ''INITIAL'') = Inr (Some ?t1)"
    by (simp add: eval_defs)
  then have b: "buy ?P ''PETR4.SA'' 10 10 ''2024-01-02'' None None ''INITIAL'' = (Inr (Some ?t1), ?S1)"
    by (simp add: prod_eq_iff)
  have "fst (sell ?S1 ''PETR4.SA'' 10 ''2024-01-03'' None ''SIGNAL'') = Inr (Some ?t2)"
    by (simp add: eval_defs)
  then have s: "sell ?S1 ''PETR4.SA'' 10 ''2024-01-03'' None ''SIGNAL'' = (Inr (Some ?t2), ?S2)"
    by (simp add: prod_eq_iff)
  have c: "0 < cash ?P" by (simp add: default_portfolio_def new_portfolio_def)
  from trade_total_cost_is_cash_outflow
         [of ?P "''PETR4.SA''" 10 10 "''2024-01-02''" None None "''INITIAL''" ?t1 ?S1] b
  have 1: "cash ?P - cash ?S1 = 1001 / 10" by simp
  from trade_total_cost_is_cash_outflow
         [of ?S1 "''PETR4.SA''" 10 w "''2024-01-03''" sl tp "''SIGNAL''" ?t2 ?S2 None] s
  have 2: "cash ?S1 - cash ?S2 = - (999 / 10)" by simp
  from trade_total_cost_is_cash_outflow
         [of ?P tk p w "''2024-01-03''" sl tp r t "apply_selic_to_cash ?P ''2024-01-03'' (1 / 2000)"
             shares_arg "1 / 2000"] c
  have 3: "cash ?P - cash (apply_selic_to_cash ?P ''2024-01-03'' (1 / 2000)) = - (1 / 2)"
    by (auto simp: default_portfolio_def new_portfolio_def)
  from 1 2 3 c show ?thesis by simp
qed

text \<open>
  C2 as stated fails: the purchase records +100.1, and the sale, whose net proceeds of
  99.9 are added to the cash, records -99.9.
\<close>

theorem trade_sign_counterexample:
  "fst (buy (default_portfolio 1000) ''PETR4.SA'' 10 10 ''2024-01-02'' None None ''INITIAL'')
     = Inr (Some \<lparr>trade_date = ''2024-01-02'', trade_ticker = ''PETR4.SA'', action = ''BUY'',
                  trade_shares = 10, price = 10, commission = 1 / 10,
                  total_cost = 1001 / 10, reason = ''INITIAL''\<rparr>)
   \<and> fst (sell
        (snd (buy (default_portfolio 1000) ''PETR4.SA'' 10 10 ''2024-01-02'' None None ''INITIAL''))
        ''PETR4.SA'' 10 ''2024-01-03'' None ''SIGNAL'')
     = Inr (Some \<lparr>trade_date = ''2024-01-03'', trade_ticker = ''PETR4.SA'', action = ''SELL'',
                  trade_shares = 10, price = 10, commission = 1 / 10,
                  total_cost = - (999 / 10), reason = ''SIGNAL''\<rparr>)
   \<and> cash (snd (sell
        (snd (buy (default_portfolio 1000) ''PETR4.SA'' 10 10 ''2024-01-02'' None None ''INITIAL''))
        ''PETR4.SA'' 10 ''2024-01-03'' None ''SIGNAL''))
     - cash (snd (buy (default_portfolio 1000) ''PETR4.SA'' 10 10 ''2024-01-02'' None None ''INITIAL''))
     = 999 / 10"
  by (simp add: eval_defs)

subsection \<open>Negative prices and share counts\<close>

lemma buy_not_held_no_error:
  assumes "p \<noteq> 0" "map_of (positions self) tk = None" "commission_pct self \<noteq> - 1"
  shows "\<exists>res self'. buy self tk p w date sl tp r = (Inr res, self')
           \<and> (res = None \<longrightarrow> self' = self)"
proof -
  from assms(3) have c: "1 + commission_pct self \<noteq> 0" by linarith
  obtain res self1 where cb: "can_buy self tk w = (res, self1)" by (cases "can_buy self tk w")
  with can_buy_state [of self tk w] have s1: "self1 = self" by simp
  from cb assms(2) c obtain x where res: "res = Inr x"
    by (auto simp: can_buy_def can_buy_cash_def Let_def split: if_splits)
  obtain can v m where x: "x = (can, v, m)" by (cases x)
  have ex: "\<exists>res self'. buy_execute self tk p date sl tp r sh = (Inr res, self')
      \<and> (res = None \<longrightarrow> self' = self)" for sh
    using assms(2) by (simp add: buy_execute_def Let_def)
  show ?thesis
    using cb s1 res x assms(1) c ex
    by (auto simp: buy_def Let_def)
qed

text \<open>
  C3, as amended. Neither \<^verbatim>\<open>buy\<close> nor \<^verbatim>\<open>sell\<close> checks the sign of its arguments.
  A \<^verbatim>\<open>sell\<close> of a negative share count raises nothing: on a ticker that is not held it
  returns \<^verbatim>\<open>None\<close> and leaves the state as it was, on a held ticker it executes a trade of
  the negative count, which moves the cash by count times price times one minus the
  commission. A \<^verbatim>\<open>buy\<close> at a negative price of a ticker that is not held raises nothing
  either (the commission not being -1): it returns \<^verbatim>\<open>None\<close> with the state as it was, or
  executes a trade at that price and creates the position.
\<close>

theorem negative_inputs_are_executed:
  "(n < 0 \<and> map_of (positions self) tk = None \<longrightarrow>
      sell self tk p date (Some n) r = (Inr None, self))
   \<and> (n < 0 \<and> map_of (positions self) tk = Some pos \<longrightarrow>
      (\<exists>t self'. sell self tk p date (Some n) r = (Inr (Some t), self')
         \<and> trade_shares t = min n (shares pos) \<and> trade_shares t < 0
         \<and> cash self' = cash self + of_int (trade_shares t) * p * (1 - commission_pct self)
         \<and> trades self' = trades self @ [t]))
   \<and> (p < 0 \<and> map_of (positions self) tk = None \<and> commission_pct self \<noteq> - 1 \<longrightarrow>
      (\<exists>res self'. buy self tk p w date sl tp r = (Inr res, self')
         \<and> (res = None \<longrightarrow> self' = self)
         \<and> (\<forall>t. res = Some t \<longrightarrow> price t = p \<and> trade_shares t \<noteq> 0
               \<and> trades self' = trades self @ [t]
               \<and> map_option shares (map_of (positions self') tk) = Some (trade_shares t))))"
proof -
  have a: "n < 0 \<and> map_of (positions self) tk = None \<longrightarrow>
      sell self tk p date (Some n) r = (Inr None, self)"
    by (simp add: sell_def)
  have b: "n < 0 \<and> map_of (positions self) tk = Some pos \<longrightarrow>
      (\<exists>t self'. sell self tk p date (Some n) r = (Inr (Some t), self')
         \<and> trade_shares t = min n (shares pos) \<and> trade_shares t < 0
         \<and> cash self' = cash self + of_int (trade_shares t) * p * (1 - commission_pct self)
         \<and> trades self' = trades self @ [t])"
    by (auto simp: sell_def Let_def algebra_simps)
  have c: "p < 0 \<and> map_of (positions self) tk = None \<and> commission_pct self \<noteq> - 1 \<longrightarrow>
      (\<exists>res self'. buy self tk p w date sl tp r = (Inr res, self')
         \<and> (res = None \<longrightarrow> self' = self)
         \<and> (\<forall>t. res = Some t \<longrightarrow> price t = p \<and> trade_shares t \<noteq> 0
               \<and> trades self' = trades self @ [t]
               \<and> map_option shares (map_of (positions self') tk) = Some (trade_shares t)))"
  proof
    assume h: "p < 0 \<and> map_of (positions self) tk = None \<and> commission_pct self \<noteq> - 1"
    then have p0: "p \<noteq> 0" and nh: "map_of (positions self) tk = None"
      and cm: "commission_pct self \<noteq> - 1" by simp_all
    from buy_not_held_no_error [OF p0 nh cm, of w date sl tp r]
    obtain res self' where r: "buy self tk p w date sl tp r = (Inr res, self')"
      and n: "res = None \<longrightarrow> self' = self"
      by blast
    have "price t = p \<and> trade_shares t \<noteq> 0 \<and> trades self' = trades self @ [t]
        \<and> map_option shares (map_of (positions self') tk) = Some (trade_shares t)"
      if "res = Some t" for t
      using buy_trade [of self tk p w date sl tp r t self']
        buy_new_position [of self tk p w date sl tp r t self'] r h that
      by simp
    with r n show "\<exists>res self'. buy self tk p w date sl tp r = (Inr res, self')
         \<and> (res = None \<longrightarrow> self' = self)
         \<and> (\<forall>t. res = Some t \<longrightarrow> price t = p \<and> trade_shares t \<noteq> 0
               \<and> trades self' = trades self @ [t]
               \<and> map_option shares (map_of (positions self') tk) = Some (trade_shares t))"
      by blast
  qed
  from a b c show ?thesis by blast
qed

theorem negative_inputs_are_executed_witness:
  "(let held = snd (buy (default_portfolio 1000) ''PETR4.SA'' 10 10 ''2024-01-02''
                       None None ''INITIAL'')
    in (- 5 :: int) < 0
       \<and> map_of (positions held) ''PETR4.SA''
           = Some \<lparr>ticker = ''PETR4.SA'', shares = 10, avg_price = 10, current_price = 10,
                   entry_date = ''2024-01-02'', stop_loss = None, take_profit = None\<rparr>
       \<and> cash (snd (sell held ''PETR4.SA'' 10 ''2024-01-03'' (Some (- 5)) ''SIGNAL''))
           = cash held + of_int (- 5) * 10 * (1 - commission_pct held)
       \<and> map_of (positions held) ''VALE3.SA'' = None
       \<and> sell held ''VALE3.SA'' 10 ''2024-01-03'' (Some (- 5)) ''SIGNAL'' = (Inr None, held))
   \<and> (- 10 :: real) < 0
   \<and> map_of (positions (default_portfolio 1000)) ''PETR4.SA'' = None
   \<and> commission_pct (default_portfolio 1000) \<noteq> - 1
   \<and> (\<exists>res self'. buy (default_portfolio 1000) ''PETR4.SA'' (- 10) 10 ''2024-01-02''
                      None None ''INITIAL'' = (Inr res, self'))"
proof -
  let ?P = "default_portfolio 1000"
  let ?held = "snd (buy ?P ''PETR4.SA'' 10 10 ''2024-01-02'' None None ''INITIAL'')"
  let ?pos = "\<lparr>ticker = ''PETR4.SA'', shares = 10, avg_price = 10, current_price = 10,
                   entry_date = ''2024-01-02'', stop_loss = None, take_profit = None\<rparr>"
  have held: "map_of (positions ?held) ''PETR4.SA'' = Some ?pos"
    by (simp add: eval_defs)
  have other: "map_of (positions ?held) ''VALE3.SA'' = None"
    by (simp add: eval_defs)
  have fresh: "map_of (positions ?P) ''PETR4.SA'' = None \<and> commission_pct ?P \<noteq> - 1"
    by (simp add: default_portfolio_def new_portfolio_def)
  from negative_inputs_are_executed
         [where n = "- 5" and self = ?held and tk = "''PETR4.SA''" and p = 10
            and date = "''2024-01-03''" and r = "''SIGNAL''" and pos = ?pos] held
  have 1: "cash (snd (sell ?held ''PETR4.SA'' 10 ''2024-01-03'' (Some (- 5)) ''SIGNAL''))
           = cash ?held + of_int (- 5) * 10 * (1 - commission_pct ?held)"
    by auto
  from negative_inputs_are_executed
         [where n = "- 5" and self = ?held and tk = "''VALE3.SA''" and p = 10
            and date = "''2024-01-03''" and r = "''SIGNAL''"] other
  have 2: "sell ?held ''VALE3.SA'' 10 ''2024-01-03'' (Some (- 5)) ''SIGNAL'' = (Inr None, ?held)"
    by simp
  from negative_inputs_are_executed
         [where n = "- 5" and pos = ?pos and self = ?P and tk = "''PETR4.SA''" and p = "- 10" and w = 10
            and date = "''2024-01-02''" and sl = None and tp = None and r = "''INITIAL''"] fresh
  have 3: "\<exists>res self'. buy ?P ''PETR4.SA'' (- 10) 10 ''2024-01-02''
                      None None ''INITIAL'' = (Inr res, self')"
    by auto
  from held other fresh 1 2 3 show ?thesis by (simp add: Let_def)
qed

text \<open>
  C3 as stated fails: the purchase at the price -10 returns a trade of -10 shares,
  takes 100.1 from the cash and creates a position of -10 shares; the sale of -5 shares
  returns a trade, takes 49.95 from the cash and raises the position from 10 to 15 shares.
\<close>

theorem negative_inputs_counterexample:
  "buy (default_portfolio 1000) ''PETR4.SA'' (- 10) 10 ''2024-01-02'' None None ''INITIAL''
     = (Inr (Some \<lparr>trade_date = ''2024-01-02'', trade_ticker = ''PETR4.SA'', action = ''BUY'',
                   trade_shares = - 10, price = - 10, commission = 1 / 10,
                   total_cost = 1001 / 10, reason = ''INITIAL''\<rparr>),
        (default_portfolio 1000)
          \<lparr>cash := 8999 / 10,
           positions := [(''PETR4.SA'',
              \<lparr>ticker = ''PETR4.SA'', shares = - 10, avg_price = - 10, current_price = - 10,
               entry_date = ''2024-01-02'', stop_loss = None, take_profit = None\<rparr>)],
           trades := [\<lparr>trade_date = ''2024-01-02'', trade_ticker = ''PETR4.SA'', action = ''BUY'',
                   trade_shares = - 10, price = - 10, commission = 1 / 10,
                   total_cost = 1001 / 10, reason = ''INITIAL''\<rparr>]\<rparr>)
   \<and> (let held = snd (buy (default_portfolio 1000) ''PETR4.SA'' 10 10 ''2024-01-02''
                       None None ''INITIAL'');
          sold = sell held ''PETR4.SA'' 10 ''2024-01-03'' (Some (- 5)) ''SIGNAL''
      in fst sold
           = Inr (Some \<lparr>trade_date = ''2024-01-03'', trade_ticker = ''PETR4.SA'', action = ''SELL'',
                   trade_shares = - 5, price = 10, commission = - (1 / 20),
                   total_cost = 999 / 20, reason = ''SIGNAL''\<rparr>)
         \<and> cash held = 8999 / 10 \<and> cash (snd sold) = 16999 / 20
         \<and> map_option shares (map_of (positions (snd sold)) ''PETR4.SA'') = Some 15)"
  by (simp add: eval_defs)

subsection \<open>The aligned benchmark series\<close>

lemma ffill_from_fst: "map fst (ffill_from prev xs) = map fst xs"
  by (induction prev xs rule: ffill_from.induct) simp_all

lemma ffill_from_length: "length (ffill_from prev xs) = length xs"
  by (induction prev xs rule: ffill_from.induct) simp_all

lemma ffill_from_nth:
  "i < length xs \<Longrightarrow>
   snd (ffill_from prev xs ! i)
     = (case snd (xs ! i) of Some v \<Rightarrow> Some v
        | None \<Rightarrow> if i = 0 then prev else snd (ffill_from prev xs ! (i - 1)))"
proof (induction prev xs arbitrary: i rule: ffill_from.induct)
  case (1 prev)
  then show ?case by simp
next
  case (2 prev d xs)
  show ?case
  proof (cases i)
    case 0
    then show ?thesis by simp
  next
    case (Suc j)
    with "2.prems" have j: "j < length xs" by simp
    show ?thesis
    proof (cases j)
      case 0
      with Suc j "2.IH" [of 0] show ?thesis by (simp split: option.split)
    next
      case (Suc k)
      with \<open>i = Suc j\<close> j "2.IH" [of j] show ?thesis by (simp split: option.split)
    qed
  qed
next
  case (3 prev d v xs)
  show ?case
  proof (cases i)
    case 0
    then show ?thesis by simp
  next
    case (Suc j)
    with "3.prems" have j: "j < length xs" by simp
    show ?thesis
    proof (cases j)
      case 0
      with Suc j "3.IH" [of 0] show ?thesis by (simp split: option.split)
    next
      case (Suc k)
      with \<open>i = Suc j\<close> j "3.IH" [of j] show ?thesis by (simp split: option.split)
    qed
  qed
qed

lemma ffill_from_all_missing:
  "\<forall>x \<in> set xs. snd x = None \<Longrightarrow> ffill_from None xs = xs"
  by (induction xs) auto

lemma fillna_fst: "map fst (fillna m xs) = map fst xs"
  by (induction xs) (auto simp: fillna_def)

lemma fillna_nth:
  "i < length xs \<Longrightarrow>
   snd (fillna m xs ! i) = (case snd (xs ! i) of None \<Rightarrow> m | Some v \<Rightarrow> Some v)"
  by (simp add: fillna_def split: prod.split)

lemma fillna_nothing_missing: "\<not> isna_any xs \<Longrightarrow> fillna m xs = xs"
  by (induction xs) (auto simp: fillna_def isna_any_def split: option.split)

lemma fillna_None: "fillna None xs = xs"
  by (induction xs) (auto simp: fillna_def split: option.split)

lemma series_mean_Some:
  "(d, Some v) \<in> set xs \<Longrightarrow> \<exists>m. series_mean xs = Some m"
proof -
  assume "(d, Some v) \<in> set xs"
  then have "[v. (d, Some v) \<leftarrow> xs] \<noteq> []"
    by (induction xs) (auto split: option.split)
  then show ?thesis by (simp add: series_mean_def Let_def)
qed

lemma series_mean_None:
  "\<forall>x \<in> set xs. snd x = None \<Longrightarrow> series_mean xs = None"
proof -
  assume "\<forall>x \<in> set xs. snd x = None"
  then have "[v. (d, Some v) \<leftarrow> xs] = []"
    by (induction xs) (auto split: option.split)
  then show ?thesis by (simp add: series_mean_def Let_def)
qed

lemma align_eq:
  "distinct (map fst cdi) \<Longrightarrow>
   align_cdi_to_portfolio dates cdi
     = Inr (fillna (series_mean cdi)
         (ffill (map (\<lambda>d. (d, case map_of cdi d of None \<Rightarrow> None | Some x \<Rightarrow> x)) dates)))"
  by (simp add: align_cdi_to_portfolio_def reindex_def Let_def fillna_nothing_missing)

text \<open>
  C4, as amended. For a source series with unique dates and at least one value present,
  and for every target axis, \<^verbatim>\<open>align_cdi_to_portfolio\<close> returns a series over exactly the
  target axis with no value missing: a date whose source value is present gets that
  value, any other date gets the value of the date before it, and the mean of the source
  when it is the first. For a source with no value present, the empty source among them,
  it raises nothing and returns the series that is missing at every target date.
\<close>

theorem align_complete_series:
  "(distinct (map fst cdi) \<and> (d, Some v) \<in> set cdi \<longrightarrow>
      (\<exists>aligned. align_cdi_to_portfolio dates cdi = Inr aligned
         \<and> map fst aligned = dates
         \<and> None \<notin> set (map snd aligned)
         \<and> (\<forall>i < length dates.
              snd (aligned ! i)
                = (case map_of cdi (dates ! i) of
                     Some (Some x) \<Rightarrow> Some x
                   | _ \<Rightarrow> if i = 0 then series_mean cdi else snd (aligned ! (i - 1))))))
   \<and> (distinct (map fst cdi) \<and> (\<forall>x \<in> set cdi. snd x = None) \<longrightarrow>
        align_cdi_to_portfolio dates cdi = Inr (map (\<lambda>d. (d, None)) dates))"
proof -
  let ?re = "map (\<lambda>d. (d, case map_of cdi d of None \<Rightarrow> None | Some x \<Rightarrow> x)) dates"
  let ?al = "fillna (series_mean cdi) (ffill ?re)"
  have 1: "distinct (map fst cdi) \<and> (d, Some v) \<in> set cdi \<longrightarrow>
      (\<exists>aligned. align_cdi_to_portfolio dates cdi = Inr aligned
         \<and> map fst aligned = dates
         \<and> None \<notin> set (map snd aligned)
         \<and> (\<forall>i < length dates.
              snd (aligned ! i)
                = (case map_of cdi (dates ! i) of
                     Some (Some x) \<Rightarrow> Some x
                   | _ \<Rightarrow> if i = 0 then series_mean cdi else snd (aligned ! (i - 1)))))"
  proof
    assume h: "distinct (map fst cdi) \<and> (d, Some v) \<in> set cdi"
    then have "(d, Some v) \<in> set cdi" by simp
    from series_mean_Some [OF this] obtain m where m: "series_mean cdi = Some m" by blast
    have len: "length ?al = length dates"
      by (simp add: fillna_def ffill_def ffill_from_length)
    have fst: "map fst ?al = dates"
      by (simp add: fillna_fst ffill_def ffill_from_fst comp_def)
    have nth: "snd (?al ! i)
        = (case map_of cdi (dates ! i) of
             Some (Some x) \<Rightarrow> Some x
           | _ \<Rightarrow> if i = 0 then series_mean cdi else snd (?al ! (i - 1)))"
      if i: "i < length dates" for i
    proof -
      have a: "snd (?al ! i) = (case snd (ffill ?re ! i) of None \<Rightarrow> Some m | Some v \<Rightarrow> Some v)"
        using i m by (simp add: fillna_nth ffill_def ffill_from_length)
      have b: "snd (ffill ?re ! i)
          = (case snd (?re ! i) of Some v \<Rightarrow> Some v
             | None \<Rightarrow> if i = 0 then None else snd (ffill ?re ! (i - 1)))"
        unfolding ffill_def using i by (intro ffill_from_nth) simp
      have c: "snd (?al ! (i - 1))
          = (case snd (ffill ?re ! (i - 1)) of None \<Rightarrow> Some m | Some v \<Rightarrow> Some v)"
        using i m by (simp add: fillna_nth ffill_def ffill_from_length)
      have r: "snd (?re ! i) = (case map_of cdi (dates ! i) of None \<Rightarrow> None | Some x \<Rightarrow> x)"
        using i by simp
      show ?thesis
        unfolding a c b r using m
        by (simp split: option.split)
    qed
    have none: "None \<notin> set (map snd ?al)"
    proof
      assume "None \<in> set (map snd ?al)"
      then obtain i where "i < length ?al" "snd (?al ! i) = None"
        by (auto simp: in_set_conv_nth)
      moreover have "snd (?al ! i) \<noteq> None" if "i < length dates" for i
        using that m by (simp add: fillna_nth ffill_def ffill_from_length split: option.split)
      ultimately show False using len by simp
    qed
    from h have "align_cdi_to_portfolio dates cdi = Inr ?al" by (simp add: align_eq)
    with fst none nth show "\<exists>aligned. align_cdi_to_portfolio dates cdi = Inr aligned
         \<and> map fst aligned = dates
         \<and> None \<notin> set (map snd aligned)
         \<and> (\<forall>i < length dates.
              snd (aligned ! i)
                = (case map_of cdi (dates ! i) of
                     Some (Some x) \<Rightarrow> Some x
                   | _ \<Rightarrow> if i = 0 then series_mean cdi else snd (aligned ! (i - 1))))"
      by blast
  qed
  have 2: "distinct (map fst cdi) \<and> (\<forall>x \<in> set cdi. snd x = None) \<longrightarrow>
        align_cdi_to_portfolio dates cdi = Inr (map (\<lambda>d. (d, None)) dates)"
  proof
    assume h: "distinct (map fst cdi) \<and> (\<forall>x \<in> set cdi. snd x = None)"
    have "(case map_of cdi d of None \<Rightarrow> None | Some x \<Rightarrow> x) = None" for d
    proof (cases "map_of cdi d")
      case None
      then show ?thesis by simp
    next
      case (Some x)
      then have "(d, x) \<in> set cdi" by (rule map_of_SomeD)
      with h Some show ?thesis by auto
    qed
    then have re: "?re = map (\<lambda>d. (d, None)) dates" by simp
    have "ffill (map (\<lambda>d. (d, None)) dates) = map (\<lambda>d. (d, None)) dates"
      unfolding ffill_def by (rule ffill_from_all_missing) auto
    then have "ffill ?re = map (\<lambda>d. (d, None)) dates" by (simp only: re)
    moreover from h have "align_cdi_to_portfolio dates cdi = Inr (fillna None (ffill ?re))"
      by (simp add: align_eq series_mean_None del: map_map)
    ultimately show "align_cdi_to_portfolio dates cdi = Inr (map (\<lambda>d. (d, None)) dates)"
      by (simp only: fillna_None)
  qed
  from 1 2 show ?thesis by blast
qed

theorem align_complete_series_witness:
  "distinct (map fst [(''2024-01-02'', Some (4 / 10000 :: real)), (''2024-01-04'', Some (6 / 10000))])
   \<and> (''2024-01-02'', Some (4 / 10000))
        \<in> set [(''2024-01-02'', Some (4 / 10000 :: real)), (''2024-01-04'', Some (6 / 10000))]
   \<and> align_cdi_to_portfolio [''2024-01-01'', ''2024-01-02'', ''2024-01-03'', ''2024-01-04'']
        [(''2024-01-02'', Some (4 / 10000)), (''2024-01-04'', Some (6 / 10000))]
      = Inr [(''2024-01-01'', Some (5 / 10000)), (''2024-01-02'', Some (4 / 10000)),
             (''2024-01-03'', Some (4 / 10000)), (''2024-01-04'', Some (6 / 10000))]
   \<and> distinct (map fst [(''2024-01-02'', None :: real option)])
   \<and> list_all (\<lambda>x. snd x = None) [(''2024-01-02'', None :: real option)]
   \<and> align_cdi_to_portfolio [''2024-01-01'', ''2024-01-02''] [(''2024-01-02'', None)]
      = Inr [(''2024-01-01'', None), (''2024-01-02'', None)]"
  using
    align_complete_series [where cdi = "[(''2024-01-02'', Some (4 / 10000)), (''2024-01-04'', Some (6 / 10000))]"
      and d = "''2024-01-02''" and v = "4 / 10000"
      and dates = "[''2024-01-01'', ''2024-01-02'', ''2024-01-03'', ''2024-01-04'']"]
    align_complete_series [where cdi = "[(''2024-01-02'', None)]"
      and dates = "[''2024-01-01'', ''2024-01-02'']"]
  by (simp add: align_cdi_to_portfolio_def reindex_def ffill_def isna_any_def fillna_def
      series_mean_def Let_def)

text \<open>
  C4 as stated fails: on an empty source the aligner returns, without failing, a series
  that is missing at both target dates.
\<close>

theorem align_empty_source_counterexample:
  "align_cdi_to_portfolio [''2024-01-02'', ''2024-01-03''] []
     = Inr [(''2024-01-02'', None), (''2024-01-03'', None)]"
  by (simp add: align_cdi_to_portfolio_def reindex_def ffill_def isna_any_def fillna_def
      series_mean_def Let_def)

subsection \<open>The reported maximum drawdown\<close>












text \<open>
  Where the running maximum is zero the cumulative product is zero too: the quotient that
  \<open>np_div\<close> leaves undefined is 0/0, which numpy evaluates to NaN.
\<close>

lemma running_max_zero_cumulative_zero:
  assumes "spec_running_max rs k = 0"
  shows "spec_cumulative rs k = 0"
proof -
  let ?cs = "map (spec_cumulative rs) [0..<Suc k]"
  have "Max (set ?cs) \<in> set ?cs"
    by (rule Max_in) simp_all
  then obtain j where "j < length ?cs" and "?cs ! j = Max (set ?cs)"
    unfolding in_set_conv_nth by blast
  with assms have j: "j \<le> k" "spec_cumulative rs j = 0"
    by (simp_all add: spec_running_max_def nth_append less_Suc_eq_le split: if_splits)
  from j(2) obtain r where r: "r \<in> set (take (Suc j) rs)" "1 + r = 0"
    unfolding spec_cumulative_def by (auto simp: prod_list_zero_iff)
  from j(1) have "set (take (Suc j) rs) \<subseteq> set (take (Suc k) rs)"
    by (intro set_take_subset_set_take) simp
  with r have "0 \<in> set (map (\<lambda>r. 1 + r) (take (Suc k) rs))" by force
  then show ?thesis
    unfolding spec_cumulative_def by (simp only: prod_list_zero_iff)
qed






subsection \<open>Scaling commutes with the calls\<close>


































end
